theory Spec2Isabelle
  imports Complex_Main
begin

section \<open>Data model\<close>

text \<open>
  The interfaces of \<^verbatim>\<open>types/vehicle.types\<close>: \<^verbatim>\<open>VehicleFormData\<close>, \<^verbatim>\<open>Vehicle\<close> that
  extends it with \<^verbatim>\<open>id\<close> and \<^verbatim>\<open>status?\<close>, \<^verbatim>\<open>ApiResponse\<close> and
  \<^verbatim>\<open>VehicleListResponse\<close>. An optional field (\<^verbatim>\<open>name?: T\<close>) is an \<open>option\<close>, \<open>None\<close>
  being JavaScript's \<^verbatim>\<open>undefined\<close>. A JavaScript number that holds an integer is an
  \<open>int\<close>. The field \<^verbatim>\<open>id\<close> is \<open>vehicle_id\<close> here, and the fields of the list response
  carry the prefix \<open>resp_\<close>.
\<close>

record VehicleFormData =
  dealer_code :: string
  dealer_name :: string
  dealer_address :: string
  dealer_city :: string
  dealer_state :: string
  model_name :: string
  model_id :: string
  battery_power :: string
  serial_number :: string

record Vehicle = VehicleFormData +
  vehicle_id :: int
  status :: "string option"

record ApiResponse =
  success :: "bool option"
  message :: "string option"
  error :: "string option"

record VehicleListResponse =
  resp_vehicles :: "Vehicle list option"
  resp_vehicle :: "Vehicle option"
  resp_error :: "string option"

text \<open>What a \<^verbatim>\<open>catch\<close> clause receives: an \<^verbatim>\<open>Error\<close> object with its message, or any
  other thrown value.\<close>

datatype thrown = ErrorObject string | OtherValue

text \<open>How an awaited call ends: the promise resolves with a response or rejects.\<close>

datatype 'r outcome = Resolved 'r | Rejected thrown

text \<open>The notification sink (\<^verbatim>\<open>react-hot-toast\<close>), as the list of messages sent to it.\<close>

datatype toast = ToastSuccess string | ToastError string

text \<open>The calls the dashboard issues to \<^verbatim>\<open>services/vehicle.service\<close>, in order, with their
  arguments.\<close>

datatype api_call =
    GetVehicles "string option" "string option"
  | DeleteVehicle int
  | MarkAsSold int

datatype VehicleSearchMode = Mode_serial_number | Mode_dealer_code

record DeletingVehicle =
  del_id :: int
  del_serialNumber :: string

subsection \<open>JavaScript helpers\<close>

text \<open>\<^verbatim>\<open>a || b\<close> on an optional string: \<^verbatim>\<open>undefined\<close> and the empty string are falsy.\<close>

definition truthy :: "string option \<Rightarrow> bool" where
  "truthy a = (case a of None \<Rightarrow> False | Some s \<Rightarrow> s \<noteq> [])"

text \<open>\<^verbatim>\<open>if (b)\<close> on an optional boolean: \<^verbatim>\<open>undefined\<close> and \<^verbatim>\<open>false\<close> are falsy.\<close>

definition truthy_flag :: "bool option \<Rightarrow> bool" where
  "truthy_flag b = (b = Some True)"

definition or_default :: "string option \<Rightarrow> string \<Rightarrow> string" where
  "or_default a d = (case a of None \<Rightarrow> d | Some s \<Rightarrow> if s = [] then d else s)"

text \<open>\<^verbatim>\<open>error instanceof Error ? error.message : fallback\<close>.\<close>

definition error_message :: "thrown \<Rightarrow> string \<Rightarrow> string" where
  "error_message e d = (case e of ErrorObject m \<Rightarrow> m | OtherValue \<Rightarrow> d)"

text \<open>\<^verbatim>\<open>String.prototype.trim\<close> on strings of one-byte characters: the white space and
  line terminators below U+0100 are TAB, LF, VT, FF, CR, SPACE and NBSP.\<close>

definition is_white_space :: "char \<Rightarrow> bool" where
  "is_white_space c = (of_char c \<in> {9, 10, 11, 12, 13, 32, 160 :: nat})"

definition trim :: "string \<Rightarrow> string" where
  "trim s = rev (dropWhile is_white_space (rev (dropWhile is_white_space s)))"

text \<open>\<^verbatim>\<open>x?.trim() || undefined\<close>.\<close>

definition trim_or_undefined :: "string option \<Rightarrow> string option" where
  "trim_or_undefined x =
     (case x of None \<Rightarrow> None
      | Some s \<Rightarrow> if trim s = [] then None else Some (trim s))"

text \<open>\<^verbatim>\<open>Array.prototype.slice(start, end)\<close>: a negative index counts from the end, and
  both indices are clamped into the array.\<close>

definition slice_index :: "int \<Rightarrow> nat \<Rightarrow> nat" where
  "slice_index k len = (if k < 0 then nat (max (int len + k) 0) else min (nat k) len)"

definition slice :: "'a list \<Rightarrow> int \<Rightarrow> int \<Rightarrow> 'a list" where
  "slice xs start end =
     (let from = slice_index start (length xs);
          to = slice_index end (length xs)
      in take (to - from) (drop from xs))"

text \<open>\<^verbatim>\<open>Math.ceil(n / k)\<close> for an array length \<open>n\<close> and a positive integer \<open>k\<close>.\<close>

definition ceil_div :: "nat \<Rightarrow> nat \<Rightarrow> int" where
  "ceil_div n k = int ((n + (k - 1)) div k)"

section \<open>The debounce hook (\<^verbatim>\<open>hooks/use-debounce.ts\<close>)\<close>

text \<open>
  The state of one \<^verbatim>\<open>useDebounce(value, delay)\<close> instance on a clock of milliseconds:
  the \<open>value\<close> and the \<open>delay\<close> the effect last ran for (its dependencies), the state
  \<open>debouncedValue\<close>, the pending \<^verbatim>\<open>setTimeout\<close> (its due time and the value its
  callback captured), and the record of the callbacks that ran: the time, the state
  before and the value set.
\<close>

record 'a debounce =
  hook_value :: 'a
  hook_delay :: nat
  debouncedValue :: 'a
  timer :: "(nat \<times> 'a) option"
  fired :: "(nat \<times> 'a \<times> 'a) list"

text \<open>The first render at time \<open>now\<close>: \<^verbatim>\<open>useState(value)\<close>, then the effect starts a timer.\<close>

definition useDebounce_mount :: "nat \<Rightarrow> 'a \<Rightarrow> nat \<Rightarrow> 'a debounce" where
  "useDebounce_mount now v delay =
     \<lparr>hook_value = v, hook_delay = delay, debouncedValue = v,
      timer = Some (now + delay, v), fired = []\<rparr>"

text \<open>A later render with \<open>value = v\<close> and \<open>delay\<close>: the effect runs again when one of its
  dependencies \<^verbatim>\<open>[value, delay]\<close> changed. Then the clean-up of the previous effect
  clears its timer and the effect starts a new one; otherwise nothing runs.\<close>

definition effect_runs :: "'a \<Rightarrow> nat \<Rightarrow> 'a debounce \<Rightarrow> bool" where
  "effect_runs v delay h = (v \<noteq> hook_value h \<or> delay \<noteq> hook_delay h)"

definition useDebounce_render :: "nat \<Rightarrow> 'a \<Rightarrow> nat \<Rightarrow> 'a debounce \<Rightarrow> 'a debounce" where
  "useDebounce_render now v delay h =
     (if effect_runs v delay h
      then h\<lparr>hook_value := v, hook_delay := delay, timer := Some (now + delay, v)\<rparr>
      else h)"

definition timer_due :: "nat \<Rightarrow> 'a debounce \<Rightarrow> bool" where
  "timer_due now h = (case timer h of None \<Rightarrow> False | Some (t, v) \<Rightarrow> t \<le> now)"

text \<open>The timer's callback: \<^verbatim>\<open>setDebouncedValue(value)\<close>.\<close>

definition useDebounce_fire :: "'a debounce \<Rightarrow> 'a debounce" where
  "useDebounce_fire h =
     (case timer h of None \<Rightarrow> h
      | Some (t, v) \<Rightarrow>
          h\<lparr>debouncedValue := v, timer := None,
            fired := fired h @ [(t, debouncedValue h, v)]\<rparr>)"

text \<open>Time passes until \<open>now\<close>: a timer that is due runs.\<close>

definition advance :: "nat \<Rightarrow> 'a debounce \<Rightarrow> 'a debounce" where
  "advance now h = (if timer_due now h then useDebounce_fire h else h)"

text \<open>The input changes to \<open>v\<close> at time \<open>t\<close>, for each \<open>(t, v)\<close> of a list in turn.\<close>

fun track :: "nat \<Rightarrow> (nat \<times> 'a) list \<Rightarrow> 'a debounce \<Rightarrow> 'a debounce" where
  "track delay [] h = h"
| "track delay ((t, v) # cs) h = track delay cs (useDebounce_render t v delay (advance t h))"

text \<open>The changes of the delayed value: the callbacks that set a value other than the
  one held.\<close>

definition changes :: "'a debounce \<Rightarrow> (nat \<times> 'a) list" where
  "changes h = map (\<lambda>(t, old, new). (t, new)) (filter (\<lambda>(t, old, new). old \<noteq> new) (fired h))"

text \<open>A burst after a change to \<open>v0\<close> at \<open>t0\<close>: every change is a change, at or after the
  previous one and less than \<open>delay\<close> after it.\<close>

fun burst :: "nat \<Rightarrow> nat \<Rightarrow> 'a \<Rightarrow> (nat \<times> 'a) list \<Rightarrow> bool" where
  "burst delay t0 v0 [] = True"
| "burst delay t0 v0 ((t, v) # cs) = (t0 \<le> t \<and> t < t0 + delay \<and> v \<noteq> v0 \<and> burst delay t v cs)"

section \<open>The dashboard (\<^verbatim>\<open>components/vehicle-dashboard.tsx\<close>)\<close>

definition ITEMS_PER_PAGE :: nat where
  "ITEMS_PER_PAGE = 5"

definition DEBOUNCE_DELAY_MS :: nat where
  "DEBOUNCE_DELAY_MS = 500"

text \<open>
  The component's state: its \<^verbatim>\<open>useState\<close> cells, the two debounce hooks, the clock,
  and the two sinks it writes to (notifications, service calls). \<^verbatim>\<open>setTimeout\<close> hands
  out increasing handles: \<open>next_handle\<close> is the next one, \<open>serial_handle\<close> and
  \<open>dealer_handle\<close> are those of the timers the two hooks started last. Timers that are
  due at the same time run in the order of their handles.
\<close>

record dashboard =
  vehicles :: "Vehicle list"
  isLoading :: bool
  currentPage :: int
  searchSerialNumber :: string
  searchDealerCode :: string
  searchMode :: VehicleSearchMode
  serialHook :: "string debounce"
  dealerHook :: "string debounce"
  editingVehicle :: "Vehicle option"
  deletingVehicle :: "DeletingVehicle option"
  now :: nat
  next_handle :: nat
  serial_handle :: nat
  dealer_handle :: nat
  toasts :: "toast list"
  api_calls :: "api_call list"

definition debouncedSerialNumber :: "dashboard \<Rightarrow> string" where
  "debouncedSerialNumber st = debouncedValue (serialHook st)"

definition debouncedDealerCode :: "dashboard \<Rightarrow> string" where
  "debouncedDealerCode st = debouncedValue (dealerHook st)"

subsection \<open>Pagination\<close>

definition totalPages :: "dashboard \<Rightarrow> int" where
  "totalPages st = ceil_div (length (vehicles st)) ITEMS_PER_PAGE"

definition startIndex :: "dashboard \<Rightarrow> int" where
  "startIndex st = (currentPage st - 1) * int ITEMS_PER_PAGE"

definition endIndex :: "dashboard \<Rightarrow> int" where
  "endIndex st = startIndex st + int ITEMS_PER_PAGE"

definition currentVehicles :: "dashboard \<Rightarrow> Vehicle list" where
  "currentVehicles st = slice (vehicles st) (startIndex st) (endIndex st)"

text \<open>The component returns the edit form while \<^verbatim>\<open>editingVehicle !== null\<close>. Otherwise
  the table section is rendered when \<^verbatim>\<open>!isLoading && vehicles.length > 0\<close>, and the
  pagination bar inside it under the guard \<^verbatim>\<open>totalPages > 1\<close>.\<close>

definition table_shown :: "dashboard \<Rightarrow> bool" where
  "table_shown st = (editingVehicle st = None \<and> \<not> isLoading st \<and> length (vehicles st) > 0)"

definition pagination_shown :: "dashboard \<Rightarrow> bool" where
  "pagination_shown st = (table_shown st \<and> totalPages st > 1)"

text \<open>The two buttons' \<^verbatim>\<open>onClick\<close> and \<^verbatim>\<open>disabled\<close>.\<close>

definition previous_onClick :: "dashboard \<Rightarrow> dashboard" where
  "previous_onClick st = st\<lparr>currentPage := max 1 (currentPage st - 1)\<rparr>"

definition next_onClick :: "dashboard \<Rightarrow> dashboard" where
  "next_onClick st = st\<lparr>currentPage := min (totalPages st) (currentPage st + 1)\<rparr>"

definition previous_disabled :: "dashboard \<Rightarrow> bool" where
  "previous_disabled st = (currentPage st = 1)"

definition next_disabled :: "dashboard \<Rightarrow> bool" where
  "next_disabled st = (currentPage st = totalPages st)"

subsection \<open>Fetching the list\<close>

text \<open>
  An \<^verbatim>\<open>async\<close> handler runs in two parts: up to its \<^verbatim>\<open>await\<close> (\<open>_begin\<close>, which
  issues the service call), and from the response on (\<open>_settle\<close>, given how the call
  ended). The handler's name without suffix is the two in sequence, nothing in between.
  In the branch \<^verbatim>\<open>if (response.error)\<close> the error is a string that is not empty, which
  \<open>or_default\<close> returns as it is.
\<close>

definition fetchVehicles_begin :: "string option \<Rightarrow> string option \<Rightarrow> dashboard \<Rightarrow> dashboard" where
  "fetchVehicles_begin serialNumber dealerCode st =
     (let serialNum = trim_or_undefined serialNumber;
          dealer = trim_or_undefined dealerCode
      in st\<lparr>isLoading := True, api_calls := api_calls st @ [GetVehicles serialNum dealer]\<rparr>)"

definition fetchVehicles_settle :: "VehicleListResponse outcome \<Rightarrow> dashboard \<Rightarrow> dashboard" where
  "fetchVehicles_settle out st =
     (let st' =
        (case out of
           Resolved response \<Rightarrow>
             if truthy (resp_error response)
             then st\<lparr>toasts := toasts st @ [ToastError (or_default (resp_error response) [])],
                     vehicles := []\<rparr>
             else st\<lparr>vehicles := (case resp_vehicles response of None \<Rightarrow> [] | Some vs \<Rightarrow> vs),
                     currentPage := 1\<rparr>
         | Rejected e \<Rightarrow>
             st\<lparr>toasts := toasts st @ [ToastError (error_message e ''Failed to fetch vehicles'')],
                vehicles := []\<rparr>)
      in st'\<lparr>isLoading := False\<rparr>)"

definition fetchVehicles ::
  "string option \<Rightarrow> string option \<Rightarrow> VehicleListResponse outcome \<Rightarrow> dashboard \<Rightarrow> dashboard" where
  "fetchVehicles serialNumber dealerCode out st =
     fetchVehicles_settle out (fetchVehicles_begin serialNumber dealerCode st)"

subsection \<open>Search\<close>

text \<open>The auto-search effect.\<close>

definition autoSearch_effect :: "dashboard \<Rightarrow> dashboard" where
  "autoSearch_effect st =
     (if searchMode st = Mode_serial_number
      then fetchVehicles_begin (Some (debouncedSerialNumber st)) None st
      else fetchVehicles_begin None (Some (debouncedDealerCode st)) st)"

text \<open>
  The render that follows a state update, and its effects in the order of the hooks:
  each debounce hook sees the current query (a timer it starts takes the next handle),
  and the auto-search effect runs when one of its dependencies differs from the previous
  render's (\<open>prev\<close>).
\<close>

definition serialHook_effect :: "dashboard \<Rightarrow> dashboard" where
  "serialHook_effect st =
     (if effect_runs (searchSerialNumber st) DEBOUNCE_DELAY_MS (serialHook st)
      then st\<lparr>serialHook :=
                useDebounce_render (now st) (searchSerialNumber st) DEBOUNCE_DELAY_MS (serialHook st),
              serial_handle := next_handle st, next_handle := next_handle st + 1\<rparr>
      else st)"

definition dealerHook_effect :: "dashboard \<Rightarrow> dashboard" where
  "dealerHook_effect st =
     (if effect_runs (searchDealerCode st) DEBOUNCE_DELAY_MS (dealerHook st)
      then st\<lparr>dealerHook :=
                useDebounce_render (now st) (searchDealerCode st) DEBOUNCE_DELAY_MS (dealerHook st),
              dealer_handle := next_handle st, next_handle := next_handle st + 1\<rparr>
      else st)"

definition rerender :: "dashboard \<Rightarrow> dashboard \<Rightarrow> dashboard" where
  "rerender prev st =
     (let st1 = dealerHook_effect (serialHook_effect st)
      in if debouncedSerialNumber st1 \<noteq> debouncedSerialNumber prev
            \<or> debouncedDealerCode st1 \<noteq> debouncedDealerCode prev
            \<or> searchMode st1 \<noteq> searchMode prev
         then autoSearch_effect st1 else st1)"

text \<open>The first render (at time 0) and its effects.\<close>

definition dashboard_mount :: dashboard where
  "dashboard_mount =
     autoSearch_effect
       \<lparr>vehicles = [], isLoading = True, currentPage = 1,
        searchSerialNumber = [], searchDealerCode = [], searchMode = Mode_serial_number,
        serialHook = useDebounce_mount 0 [] DEBOUNCE_DELAY_MS,
        dealerHook = useDebounce_mount 0 [] DEBOUNCE_DELAY_MS,
        editingVehicle = None, deletingVehicle = None,
        now = 0, next_handle = 2, serial_handle = 0, dealer_handle = 1,
        toasts = [], api_calls = []\<rparr>"

text \<open>The two mode buttons, the two inputs and the clear button.\<close>

definition serialMode_onClick :: "dashboard \<Rightarrow> dashboard" where
  "serialMode_onClick st = rerender st (st\<lparr>searchMode := Mode_serial_number, searchDealerCode := []\<rparr>)"

definition dealerMode_onClick :: "dashboard \<Rightarrow> dashboard" where
  "dealerMode_onClick st = rerender st (st\<lparr>searchMode := Mode_dealer_code, searchSerialNumber := []\<rparr>)"

definition serial_onChange :: "string \<Rightarrow> dashboard \<Rightarrow> dashboard" where
  "serial_onChange s st = rerender st (st\<lparr>searchSerialNumber := s\<rparr>)"

definition dealer_onChange :: "string \<Rightarrow> dashboard \<Rightarrow> dashboard" where
  "dealer_onChange s st = rerender st (st\<lparr>searchDealerCode := s\<rparr>)"

definition handleClearSearch :: "dashboard \<Rightarrow> dashboard" where
  "handleClearSearch st = rerender st (st\<lparr>searchSerialNumber := [], searchDealerCode := []\<rparr>)"

text \<open>A hook's timer runs its callback, and the component renders again.\<close>

definition serialTimer_fires :: "dashboard \<Rightarrow> dashboard" where
  "serialTimer_fires st = rerender st (st\<lparr>serialHook := useDebounce_fire (serialHook st)\<rparr>)"

definition dealerTimer_fires :: "dashboard \<Rightarrow> dashboard" where
  "dealerTimer_fires st = rerender st (st\<lparr>dealerHook := useDebounce_fire (dealerHook st)\<rparr>)"

text \<open>The dealer hook's timer runs before the serial hook's: it is due earlier, or at the
  same time with the smaller handle.\<close>

definition dealer_first :: "dashboard \<Rightarrow> bool" where
  "dealer_first st =
     (case (timer (dealerHook st), timer (serialHook st)) of
        (Some (td, vd), Some (ts, vs)) \<Rightarrow>
          td < ts \<or> (td = ts \<and> dealer_handle st < serial_handle st)
      | _ \<Rightarrow> False)"

text \<open>\<open>ms\<close> milliseconds pass with no input: the timers that are due run, the earlier
  one first, and on a tie the one started first.\<close>

definition elapse :: "nat \<Rightarrow> dashboard \<Rightarrow> dashboard" where
  "elapse ms st =
     (let st1 = st\<lparr>now := now st + ms\<rparr>;
          serial_due = timer_due (now st1) (serialHook st1);
          dealer_due = timer_due (now st1) (dealerHook st1)
      in if serial_due \<and> dealer_due
         then (if dealer_first st1
               then serialTimer_fires (dealerTimer_fires st1)
               else dealerTimer_fires (serialTimer_fires st1))
         else if serial_due then serialTimer_fires st1
         else if dealer_due then dealerTimer_fires st1
         else st1)"

text \<open>The operations of the search coordinator, and a sequence of them.\<close>

datatype search_op =
    SetMode VehicleSearchMode
  | SetSerialQuery string
  | SetDealerQuery string
  | Clear
  | Elapse nat

fun search_step :: "search_op \<Rightarrow> dashboard \<Rightarrow> dashboard" where
  "search_step (SetMode Mode_serial_number) st = serialMode_onClick st"
| "search_step (SetMode Mode_dealer_code) st = dealerMode_onClick st"
| "search_step (SetSerialQuery s) st = serial_onChange s st"
| "search_step (SetDealerQuery s) st = dealer_onChange s st"
| "search_step Clear st = handleClearSearch st"
| "search_step (Elapse ms) st = elapse ms st"

definition search_run :: "search_op list \<Rightarrow> dashboard \<Rightarrow> dashboard" where
  "search_run ops st = foldl (\<lambda>s e. search_step e s) st ops"

text \<open>The service calls issued since an earlier state.\<close>

definition calls_since :: "dashboard \<Rightarrow> dashboard \<Rightarrow> api_call list" where
  "calls_since prev st = drop (length (api_calls prev)) (api_calls st)"

subsection \<open>Mutations\<close>

definition handleDelete_begin :: "dashboard \<Rightarrow> dashboard" where
  "handleDelete_begin st =
     (case deletingVehicle st of
        None \<Rightarrow> st
      | Some d \<Rightarrow> st\<lparr>api_calls := api_calls st @ [DeleteVehicle (del_id d)]\<rparr>)"

definition handleDelete_settle :: "ApiResponse outcome \<Rightarrow> dashboard \<Rightarrow> dashboard" where
  "handleDelete_settle out st =
     (case out of
        Resolved response \<Rightarrow>
          if truthy_flag (success response)
          then fetchVehicles_begin None None
                 (st\<lparr>toasts := toasts st @
                        [ToastSuccess (or_default (message response) ''Vehicle deleted successfully'')],
                     deletingVehicle := None\<rparr>)
          else st\<lparr>toasts := toasts st @
                      [ToastError (or_default (error response) ''Failed to delete vehicle'')]\<rparr>
      | Rejected e \<Rightarrow>
          st\<lparr>toasts := toasts st @ [ToastError (error_message e ''An unexpected error occurred'')]\<rparr>)"

definition handleDelete :: "ApiResponse outcome \<Rightarrow> dashboard \<Rightarrow> dashboard" where
  "handleDelete out st =
     (case deletingVehicle st of
        None \<Rightarrow> st
      | Some d \<Rightarrow> handleDelete_settle out (handleDelete_begin st))"

definition handleMarkAsSold_begin :: "Vehicle \<Rightarrow> dashboard \<Rightarrow> dashboard" where
  "handleMarkAsSold_begin vehicle st =
     st\<lparr>vehicles :=
          map (\<lambda>v. if vehicle_id v = vehicle_id vehicle then v\<lparr>status := Some ''sold''\<rparr> else v)
            (vehicles st),
        api_calls := api_calls st @ [MarkAsSold (vehicle_id vehicle)]\<rparr>"

definition handleMarkAsSold_settle :: "Vehicle \<Rightarrow> ApiResponse outcome \<Rightarrow> dashboard \<Rightarrow> dashboard" where
  "handleMarkAsSold_settle vehicle out st =
     (case out of
        Resolved response \<Rightarrow>
          if truthy_flag (success response)
          then fetchVehicles_begin None None
                 (st\<lparr>toasts := toasts st @
                        [ToastSuccess
                           (or_default (message response) ''Vehicle marked as sold successfully'')]\<rparr>)
          else st\<lparr>vehicles :=
                     map (\<lambda>v. if vehicle_id v = vehicle_id vehicle
                               then v\<lparr>status := status vehicle\<rparr> else v)
                       (vehicles st),
                   toasts := toasts st @
                     [ToastError (or_default (error response) ''Failed to mark vehicle as sold'')]\<rparr>
      | Rejected e \<Rightarrow>
          st\<lparr>vehicles :=
                map (\<lambda>v. if vehicle_id v = vehicle_id vehicle
                          then v\<lparr>status := status vehicle\<rparr> else v)
                  (vehicles st),
              toasts := toasts st @
                [ToastError (error_message e ''An unexpected error occurred'')]\<rparr>)"

definition handleMarkAsSold :: "Vehicle \<Rightarrow> ApiResponse outcome \<Rightarrow> dashboard \<Rightarrow> dashboard" where
  "handleMarkAsSold vehicle out st =
     handleMarkAsSold_settle vehicle out (handleMarkAsSold_begin vehicle st)"

definition handleEditSave :: "dashboard \<Rightarrow> dashboard" where
  "handleEditSave st = fetchVehicles_begin None None (st\<lparr>editingVehicle := None\<rparr>)"

definition handleEditCancel :: "dashboard \<Rightarrow> dashboard" where
  "handleEditCancel st = st\<lparr>editingVehicle := None\<rparr>"

text \<open>
  The edit form's \<^verbatim>\<open>onSubmit\<close> from the response of \<^verbatim>\<open>updateVehicle\<close> on, as far as it
  touches the dashboard: \<^verbatim>\<open>onSave\<close> is \<open>handleEditSave\<close>. The form's own state (its
  fields, \<^verbatim>\<open>isSubmitting\<close>) is not part of the dashboard.
\<close>

definition editForm_onSubmit_settle :: "ApiResponse outcome \<Rightarrow> dashboard \<Rightarrow> dashboard" where
  "editForm_onSubmit_settle out st =
     (case out of
        Resolved response \<Rightarrow>
          if truthy_flag (success response)
          then handleEditSave
                 (st\<lparr>toasts := toasts st @
                        [ToastSuccess (or_default (message response) ''Vehicle updated successfully'')]\<rparr>)
          else st\<lparr>toasts := toasts st @
                      [ToastError (or_default (error response) ''Failed to update vehicle'')]\<rparr>
      | Rejected e \<Rightarrow>
          st\<lparr>toasts := toasts st @ [ToastError (error_message e ''An unexpected error occurred'')]\<rparr>)"

subsection \<open>The row's action menu (\<^verbatim>\<open>components/action-menu.tsx\<close>)\<close>

record ActionMenuItem =
  label :: string
  onClick :: "dashboard \<Rightarrow> dashboard"
  disabled :: "bool option"

text \<open>The \<^verbatim>\<open>items\<close> the dashboard passes for a row; \<^verbatim>\<open>Mark as Sold\<close> starts the handler.\<close>

definition action_items :: "Vehicle \<Rightarrow> ActionMenuItem list" where
  "action_items vehicle =
     [\<lparr>label = ''Edit'',
       onClick = (\<lambda>st. st\<lparr>editingVehicle := Some vehicle\<rparr>),
       disabled = Some (status vehicle = Some ''sold'')\<rparr>,
      \<lparr>label = ''Mark as Sold'',
       onClick = handleMarkAsSold_begin vehicle,
       disabled = Some (status vehicle = Some ''sold'')\<rparr>,
      \<lparr>label = ''Delete'',
       onClick = (\<lambda>st. st\<lparr>deletingVehicle :=
                    Some \<lparr>del_id = vehicle_id vehicle, del_serialNumber = serial_number vehicle\<rparr>\<rparr>),
       disabled = None\<rparr>]"

text \<open>The button's \<^verbatim>\<open>disabled={item.disabled}\<close>, and \<^verbatim>\<open>handleItemClick\<close> as far as
  it touches the dashboard (the menu's own \<^verbatim>\<open>isOpen\<close> is left out).\<close>

definition button_disabled :: "ActionMenuItem \<Rightarrow> bool" where
  "button_disabled item = (disabled item = Some True)"

definition handleItemClick :: "ActionMenuItem \<Rightarrow> dashboard \<Rightarrow> dashboard" where
  "handleItemClick item st = (if \<not> button_disabled item then onClick item st else st)"

subsection \<open>Derived notions and example states\<close>

text \<open>The visible slice when the current page is \<open>p\<close>.\<close>

definition page_slice :: "dashboard \<Rightarrow> int \<Rightarrow> Vehicle list" where
  "page_slice st p = currentVehicles (st\<lparr>currentPage := p\<rparr>)"

definition example_vehicle :: "int \<Rightarrow> string option \<Rightarrow> Vehicle" where
  "example_vehicle i s =
     \<lparr>dealer_code = ''D1'', dealer_name = [], dealer_address = [], dealer_city = [],
      dealer_state = [], model_name = ''M1'', model_id = [], battery_power = [],
      serial_number = ''S1'', vehicle_id = i, status = s\<rparr>"

text \<open>An idle dashboard that shows the list \<open>vs\<close> on page 1.\<close>

definition example_dashboard :: "Vehicle list \<Rightarrow> dashboard" where
  "example_dashboard vs =
     \<lparr>vehicles = vs, isLoading = False, currentPage = 1,
      searchSerialNumber = [], searchDealerCode = [], searchMode = Mode_serial_number,
      serialHook = \<lparr>hook_value = [], hook_delay = 500, debouncedValue = [], timer = None,
                     fired = []\<rparr>,
      dealerHook = \<lparr>hook_value = [], hook_delay = 500, debouncedValue = [], timer = None,
                     fired = []\<rparr>,
      editingVehicle = None, deletingVehicle = None,
      now = 1000, next_handle = 2, serial_handle = 0, dealer_handle = 1,
      toasts = [], api_calls = []\<rparr>"

definition twelve_vehicles :: "Vehicle list" where
  "twelve_vehicles = map (\<lambda>i. example_vehicle i None) [1, 2, 3, 4, 5, 6, 7, 8, 9, 10, 11, 12]"

text \<open>A dashboard with a search typed in and debounced, that shows the list \<open>vs\<close>.\<close>

definition searching_dashboard :: "Vehicle list \<Rightarrow> dashboard" where
  "searching_dashboard vs =
     (example_dashboard vs)
       \<lparr>searchSerialNumber := ''ABC123'',
        serialHook := \<lparr>hook_value = ''ABC123'', hook_delay = 500, debouncedValue = ''ABC123'',
                       timer = None, fired = [(800, [], ''ABC123'')]\<rparr>\<rparr>"


definition ok_response :: ApiResponse where
  "ok_response = \<lparr>success = Some True, message = Some ''done'', error = None\<rparr>"

text \<open>A fetch that carries the filter of the mode \<open>m\<close> only: the other one is
  \<^verbatim>\<open>undefined\<close>.\<close>

definition active_filter_only :: "VehicleSearchMode \<Rightarrow> api_call \<Rightarrow> bool" where
  "active_filter_only m c =
     (case c of
        GetVehicles serialNum dealer \<Rightarrow>
          (case m of Mode_serial_number \<Rightarrow> dealer = None | Mode_dealer_code \<Rightarrow> serialNum = None)
      | DeleteVehicle i \<Rightarrow> False
      | MarkAsSold i \<Rightarrow> False)"

text \<open>A call that is no fetch, or a fetch with at most one filter, where a filter that is
  there is not the empty string.\<close>

definition at_most_one_filter :: "api_call \<Rightarrow> bool" where
  "at_most_one_filter c =
     (case c of
        GetVehicles serialNum dealer \<Rightarrow>
          (serialNum = None \<or> dealer = None) \<and> serialNum \<noteq> Some [] \<and> dealer \<noteq> Some []
      | DeleteVehicle i \<Rightarrow> True
      | MarkAsSold i \<Rightarrow> True)"

text \<open>The state \<open>st'\<close> is in mode \<open>m\<close>, and its calls are those of \<open>st\<close> followed by
  fetches with the filter of \<open>m\<close> only.\<close>

definition fetches_for :: "VehicleSearchMode \<Rightarrow> dashboard \<Rightarrow> dashboard \<Rightarrow> bool" where
  "fetches_for m st st' =
     (searchMode st' = m \<and>
      (\<exists>cs. api_calls st' = api_calls st @ cs
            \<and> list_all (\<lambda>c. active_filter_only m c \<and> at_most_one_filter c) cs))"

text \<open>The user types \<^verbatim>\<open>ABC\<close>, then \<^verbatim>\<open>ABC123\<close> 200 ms later, then nothing for 500 ms.\<close>

definition typing_scenario :: "search_op list" where
  "typing_scenario = [SetSerialQuery ''ABC'', Elapse 200, SetSerialQuery ''ABC123'', Elapse 500]"

text \<open>The last change of a burst that starts with a change to \<open>v\<close> at \<open>t\<close>.\<close>

definition last_change :: "nat \<Rightarrow> 'a \<Rightarrow> (nat \<times> 'a) list \<Rightarrow> nat \<times> 'a" where
  "last_change t v cs = last ((t, v) # cs)"

section \<open>Pagination: properties\<close>

lemma ceil_div_is_ceiling:
  assumes "0 < k"
  shows "ceil_div n k = \<lceil>real n / real k\<rceil>"
proof -
  let ?q = "(n + (k - 1)) div k"
  have "n + (k - 1) < k + ?q * k"
    using assms by (rule dividend_less_div_times)
  then have a: "n \<le> ?q * k" using assms by simp
  have "?q * k \<le> n + (k - 1)" by (rule div_times_less_eq_dividend)
  then have b: "?q * k < n + k" using assms by linarith
  from a have "real n \<le> real (?q * k)" by (simp only: of_nat_le_iff)
  then have a': "real n / real k \<le> real ?q"
    using assms by (simp add: field_simps)
  from b have "real (?q * k) < real (n + k)" by (simp only: of_nat_less_iff)
  then have b': "real ?q - 1 < real n / real k"
    using assms by (simp add: field_simps)
  have "\<lceil>real n / real k\<rceil> = int ?q"
    by (rule ceiling_unique) (use a' b' in simp_all)
  then show ?thesis by (simp add: ceil_div_def)
qed

lemma slice_index_nat: "slice_index (int a) len = min a len"
  by (simp add: slice_index_def)

lemma slice_nat: "slice xs (int a) (int a + int n) = take n (drop a xs)"
proof -
  have e: "int a + int n = int (a + n)" by simp
  show ?thesis
    unfolding slice_def Let_def e slice_index_nat
    by (cases "a \<le> length xs"; cases "a + n \<le> length xs") (simp_all add: min_def)
qed

lemma page_slice_nat: "page_slice st (int k + 1) = take 5 (drop (5 * k) (vehicles st))"
proof -
  have "page_slice st (int k + 1) = slice (vehicles st) (int (5 * k)) (int (5 * k) + int 5)"
    by (simp add: page_slice_def currentVehicles_def startIndex_def endIndex_def
        ITEMS_PER_PAGE_def mult.commute)
  then show ?thesis by (simp only: slice_nat)
qed

lemma upto_as_map: "[1..int n] = map (\<lambda>k. int k + 1) [0..<n]"
  by (induction n) (simp_all add: upto_rec2)

lemma concat_chunks: "concat (map (\<lambda>k. take 5 (drop (5 * k) xs)) [0..<n]) = take (5 * n) xs"
proof (induction n)
  case 0
  show ?case by simp
next
  case (Suc n)
  have "take (5 * Suc n) xs = take (5 * n) xs @ take 5 (drop (5 * n) xs)"
    by (simp add: take_add [symmetric] add.commute)
  with Suc show ?case by simp
qed

lemma totalPages_nat: "totalPages st = int ((length (vehicles st) + 4) div 5)"
  by (simp add: totalPages_def ceil_div_def ITEMS_PER_PAGE_def)

lemma pages_concat: "concat (map (page_slice st) [1..totalPages st]) = vehicles st"
proof -
  let ?n = "(length (vehicles st) + 4) div 5"
  have "concat (map (page_slice st) [1..totalPages st]) =
        concat (map (\<lambda>k. take 5 (drop (5 * k) (vehicles st))) [0..<?n])"
    by (simp only: totalPages_nat upto_as_map map_map o_def page_slice_nat)
  also have "\<dots> = take (5 * ?n) (vehicles st)" by (rule concat_chunks)
  also have "\<dots> = vehicles st" by simp
  finally show ?thesis .
qed

lemma pages_sum:
  "sum_list (map (\<lambda>p. length (page_slice st p)) [1..totalPages st]) = length (vehicles st)"
proof -
  have "length (concat (map (page_slice st) [1..totalPages st])) = length (vehicles st)"
    by (simp only: pages_concat)
  then show ?thesis by (simp add: length_concat o_def)
qed

lemma page_full:
  assumes "1 \<le> p" "p < totalPages st"
  shows "length (page_slice st p) = 5"
proof -
  obtain k where p: "p = int k + 1"
    using assms(1) by (metis add.commute nonneg_int_cases diff_ge_0_iff_ge diff_add_cancel)
  from assms(2) have "k + 1 < (length (vehicles st) + 4) div 5"
    unfolding p totalPages_nat by simp
  then have "5 * k + 5 \<le> length (vehicles st)" by simp
  then show ?thesis unfolding p page_slice_nat by simp
qed

lemma twelve_pages:
  assumes "length (vehicles st) = 12"
  shows "totalPages st = 3" and "page_slice st 3 = [vehicles st ! 10, vehicles st ! 11]"
proof -
  show "totalPages st = 3" using assms by (simp add: totalPages_nat)
  have "page_slice st (int 2 + 1) = take 5 (drop (5 * 2) (vehicles st))" by (rule page_slice_nat)
  moreover have "drop 10 (vehicles st) = [vehicles st ! 10, vehicles st ! 11]"
  proof -
    have "drop 10 (vehicles st) = vehicles st ! 10 # drop 11 (vehicles st)"
      using assms by (simp add: Cons_nth_drop_Suc [symmetric])
    moreover have "drop 11 (vehicles st) = vehicles st ! 11 # drop 12 (vehicles st)"
      using assms by (simp add: Cons_nth_drop_Suc [symmetric])
    ultimately show ?thesis using assms by simp
  qed
  ultimately show "page_slice st 3 = [vehicles st ! 10, vehicles st ! 11]" by simp
qed

lemma example_dashboard_simps:
  "vehicles (example_dashboard vs) = vs"
  "isLoading (example_dashboard vs) = False"
  "currentPage (example_dashboard vs) = 1"
  "editingVehicle (example_dashboard vs) = None"
  "deletingVehicle (example_dashboard vs) = None"
  "toasts (example_dashboard vs) = []"
  "api_calls (example_dashboard vs) = []"
  by (simp_all add: example_dashboard_def)

lemma length_twelve_vehicles: "length twelve_vehicles = 12"
  by (simp add: twelve_vehicles_def)

text \<open>
  Claim C5. For every list of vehicles, the visible slices of the pages 1 to
  \<open>totalPages\<close> partition the list: put one after the other they are the list, so their
  lengths add up to its length; every page before the last one shows exactly 5
  vehicles; and a list of 12 vehicles has 3 pages, page 3 showing exactly the vehicles
  at the indices 10 and 11.
\<close>

theorem pages_partition:
  "sum_list (map (\<lambda>p. length (page_slice st p)) [1..totalPages st]) = length (vehicles st)
   \<and> concat (map (page_slice st) [1..totalPages st]) = vehicles st
   \<and> (\<forall>p. 1 \<le> p \<and> p < totalPages st \<longrightarrow> length (page_slice st p) = 5)
   \<and> (length (vehicles st) = 12 \<longrightarrow>
        totalPages st = 3 \<and> page_slice st 3 = [vehicles st ! 10, vehicles st ! 11])"
  using pages_sum [of st] pages_concat [of st] page_full [of _ st] twelve_pages [of st]
  by blast

theorem pages_partition_witness:
  "length (vehicles (example_dashboard twelve_vehicles)) = 12
   \<and> totalPages (example_dashboard twelve_vehicles) = 3
   \<and> page_slice (example_dashboard twelve_vehicles) 3 =
       [example_vehicle 11 None, example_vehicle 12 None]
   \<and> length (page_slice (example_dashboard twelve_vehicles) 1) = 5
   \<and> length (page_slice (example_dashboard twelve_vehicles) 2) = 5"
proof -
  let ?st = "example_dashboard twelve_vehicles"
  have len: "length (vehicles ?st) = 12"
    by (simp add: example_dashboard_simps length_twelve_vehicles)
  from pages_partition [of ?st] len
  have tp: "totalPages ?st = 3"
    and p3: "page_slice ?st 3 = [vehicles ?st ! 10, vehicles ?st ! 11]"
    and full: "\<And>p. 1 \<le> p \<and> p < totalPages ?st \<Longrightarrow> length (page_slice ?st p) = 5"
    by blast+
  have "length (page_slice ?st 1) = 5" "length (page_slice ?st 2) = 5"
    using full [of 1] full [of 2] tp by simp_all
  moreover have "page_slice ?st 3 = [example_vehicle 11 None, example_vehicle 12 None]"
    using p3 by (simp add: example_dashboard_simps twelve_vehicles_def)
  ultimately show ?thesis using len tp by simp
qed

text \<open>
  Claim C6, as the code has it. The page count is the ceiling of \<open>len / 5\<close>: it is 0 for
  the empty list, and it is \<open>max 1 (ceiling (len / 5))\<close> for every list that is not
  empty. The pagination bar is hidden whenever \<open>totalPages \<le> 1\<close>; it is shown exactly
  when the edit form is closed, the list is not loading and \<open>totalPages > 1\<close>.
\<close>

theorem totalPages_ceiling:
  "totalPages st = \<lceil>real (length (vehicles st)) / real ITEMS_PER_PAGE\<rceil>
   \<and> (vehicles st = [] \<longrightarrow> totalPages st = 0)
   \<and> (vehicles st \<noteq> [] \<longrightarrow>
        totalPages st = max 1 \<lceil>real (length (vehicles st)) / real ITEMS_PER_PAGE\<rceil>)
   \<and> (totalPages st \<le> 1 \<longrightarrow> \<not> pagination_shown st)
   \<and> (pagination_shown st \<longleftrightarrow>
        editingVehicle st = None \<and> \<not> isLoading st \<and> totalPages st > 1)"
proof -
  have c: "totalPages st = \<lceil>real (length (vehicles st)) / real ITEMS_PER_PAGE\<rceil>"
    unfolding totalPages_def by (rule ceil_div_is_ceiling) (simp add: ITEMS_PER_PAGE_def)
  have e: "vehicles st = [] \<longrightarrow> totalPages st = 0"
    by (simp add: totalPages_nat)
  have "vehicles st \<noteq> [] \<longrightarrow> 1 \<le> totalPages st"
    by (cases "vehicles st") (simp_all add: totalPages_nat)
  then have n: "vehicles st \<noteq> [] \<longrightarrow>
      totalPages st = max 1 \<lceil>real (length (vehicles st)) / real ITEMS_PER_PAGE\<rceil>"
    using c by simp
  have h: "totalPages st \<le> 1 \<longrightarrow> \<not> pagination_shown st"
    by (simp add: pagination_shown_def)
  have "totalPages st > 1 \<longrightarrow> length (vehicles st) > 0"
    by (cases "vehicles st") (simp_all add: totalPages_nat)
  then have s: "pagination_shown st \<longleftrightarrow>
      editingVehicle st = None \<and> \<not> isLoading st \<and> totalPages st > 1"
    by (auto simp: pagination_shown_def table_shown_def)
  from c e n h s show ?thesis by blast
qed

theorem totalPages_ceiling_witness:
  "vehicles (example_dashboard twelve_vehicles) \<noteq> []
   \<and> totalPages (example_dashboard twelve_vehicles) = 3
   \<and> max 1 \<lceil>real (length (vehicles (example_dashboard twelve_vehicles))) / real ITEMS_PER_PAGE\<rceil> = 3
   \<and> pagination_shown (example_dashboard twelve_vehicles)
   \<and> vehicles (example_dashboard []) = []
   \<and> totalPages (example_dashboard []) = 0
   \<and> \<not> pagination_shown (example_dashboard [])"
proof -
  have t12: "totalPages (example_dashboard twelve_vehicles) = 3"
    by (simp add: totalPages_nat example_dashboard_simps length_twelve_vehicles)
  have ne: "vehicles (example_dashboard twelve_vehicles) \<noteq> []"
    by (simp add: example_dashboard_simps twelve_vehicles_def)
  have e: "vehicles (example_dashboard []) = []"
    by (simp add: example_dashboard_simps)
  show ?thesis
    using totalPages_ceiling [of "example_dashboard twelve_vehicles"]
      totalPages_ceiling [of "example_dashboard []"] t12 ne e
    by (simp add: example_dashboard_simps)
qed

text \<open>
  The claim as the specification words it fails twice: the empty list has 0 pages, where
  \<open>max 1 (ceiling (0 / 5))\<close> is 1; and while a list of 12 vehicles is being fetched again
  the bar is hidden although there are 3 pages.
\<close>

theorem totalPages_counterexample:
  "totalPages (example_dashboard []) = 0
   \<and> max 1 \<lceil>real (length (vehicles (example_dashboard []))) / real ITEMS_PER_PAGE\<rceil> = 1
   \<and> totalPages ((example_dashboard twelve_vehicles)\<lparr>isLoading := True\<rparr>) = 3
   \<and> \<not> pagination_shown ((example_dashboard twelve_vehicles)\<lparr>isLoading := True\<rparr>)"
  by (simp add: totalPages_nat example_dashboard_simps length_twelve_vehicles
      pagination_shown_def table_shown_def)

text \<open>
  Claim C7. When the current page is between 1 and \<open>totalPages\<close>: "Previous" on page 1
  and "Next" on the last page leave the current page as it is, and after either button
  the current page is between 1 and \<open>max 1 totalPages\<close>, the page count being unchanged.
\<close>

theorem navigation_clamped:
  assumes "1 \<le> currentPage st" and "currentPage st \<le> totalPages st"
  shows "(currentPage st = 1 \<longrightarrow> currentPage (previous_onClick st) = currentPage st)
    \<and> (currentPage st = totalPages st \<longrightarrow> currentPage (next_onClick st) = currentPage st)
    \<and> totalPages (previous_onClick st) = totalPages st
    \<and> totalPages (next_onClick st) = totalPages st
    \<and> 1 \<le> currentPage (previous_onClick st)
    \<and> currentPage (previous_onClick st) \<le> max 1 (totalPages (previous_onClick st))
    \<and> 1 \<le> currentPage (next_onClick st)
    \<and> currentPage (next_onClick st) \<le> max 1 (totalPages (next_onClick st))"
  using assms by (simp add: previous_onClick_def next_onClick_def totalPages_def)

theorem navigation_clamped_witness:
  "1 \<le> currentPage (example_dashboard twelve_vehicles)
   \<and> currentPage (example_dashboard twelve_vehicles) \<le> totalPages (example_dashboard twelve_vehicles)
   \<and> currentPage (previous_onClick (example_dashboard twelve_vehicles)) = 1
   \<and> currentPage (next_onClick (example_dashboard twelve_vehicles)) = 2
   \<and> currentPage (next_onClick ((example_dashboard twelve_vehicles)\<lparr>currentPage := 3\<rparr>)) = 3"
proof -
  let ?st = "example_dashboard twelve_vehicles"
  have t: "totalPages ?st = 3" "totalPages (?st\<lparr>currentPage := 3\<rparr>) = 3"
    by (simp_all add: totalPages_nat example_dashboard_simps length_twelve_vehicles)
  have c: "currentPage ?st = 1" by (simp add: example_dashboard_simps)
  have n: "currentPage (next_onClick ?st) = 2"
    by (simp add: next_onClick_def t c)
  show ?thesis
    using navigation_clamped [of ?st] navigation_clamped [of "?st\<lparr>currentPage := 3\<rparr>"] t c n
    by simp
qed

section \<open>Fetching and mutations: properties\<close>

lemmas handler_defs =
  fetchVehicles_def fetchVehicles_begin_def fetchVehicles_settle_def
  handleDelete_def handleDelete_begin_def handleDelete_settle_def
  handleMarkAsSold_def handleMarkAsSold_begin_def handleMarkAsSold_settle_def
  handleEditSave_def editForm_onSubmit_settle_def
  trim_or_undefined_def










text \<open>
  Claim C9. In the menu of every row, "Edit" and "Mark as Sold" are disabled exactly when
  the vehicle's status is \<open>sold\<close>; "Delete" is never disabled, and clicking it makes the
  vehicle the pending delete target, whatever its status.
\<close>

theorem sold_actions_disabled:
  "map label (action_items vehicle) = [''Edit'', ''Mark as Sold'', ''Delete'']
   \<and> (button_disabled (action_items vehicle ! 0) \<longleftrightarrow> status vehicle = Some ''sold'')
   \<and> (button_disabled (action_items vehicle ! 1) \<longleftrightarrow> status vehicle = Some ''sold'')
   \<and> \<not> button_disabled (action_items vehicle ! 2)
   \<and> handleItemClick (action_items vehicle ! 2) st =
       st\<lparr>deletingVehicle :=
            Some \<lparr>del_id = vehicle_id vehicle, del_serialNumber = serial_number vehicle\<rparr>\<rparr>"
  by (simp add: action_items_def button_disabled_def handleItemClick_def)

theorem sold_actions_disabled_witness:
  "button_disabled (action_items (example_vehicle 2 (Some ''sold'')) ! 0)
   \<and> button_disabled (action_items (example_vehicle 2 (Some ''sold'')) ! 1)
   \<and> \<not> button_disabled (action_items (example_vehicle 2 (Some ''sold'')) ! 2)
   \<and> \<not> button_disabled (action_items (example_vehicle 1 None) ! 0)
   \<and> \<not> button_disabled (action_items (example_vehicle 1 None) ! 1)
   \<and> \<not> button_disabled (action_items (example_vehicle 1 None) ! 2)"
proof -
  have s: "status (example_vehicle 2 (Some ''sold'')) = Some ''sold''"
    "status (example_vehicle 1 None) \<noteq> Some ''sold''"
    by (simp_all add: example_vehicle_def)
  show ?thesis
    using sold_actions_disabled [of "example_vehicle 2 (Some ''sold'')"]
      sold_actions_disabled [of "example_vehicle 1 None"] s
    by blast
qed

text \<open>
  Claim C10. Whatever the search inputs hold, the fetch that follows a successful delete,
  a successful mark-as-sold and a successful save of the edit form is the call
  \<^verbatim>\<open>getVehicles(undefined, undefined)\<close>: the list is fetched with no filter.
\<close>

theorem reconciling_refetch_unfiltered:
  "(deletingVehicle st = Some d \<and> truthy_flag (success response) \<longrightarrow>
      last (api_calls (handleDelete (Resolved response) st)) = GetVehicles None None)
   \<and> (truthy_flag (success response) \<longrightarrow>
      last (api_calls (handleMarkAsSold vehicle (Resolved response) st)) = GetVehicles None None)
   \<and> (truthy_flag (success response) \<longrightarrow>
      last (api_calls (editForm_onSubmit_settle (Resolved response) st)) = GetVehicles None None)
   \<and> calls_since st (handleEditSave st) = [GetVehicles None None]"
  by (simp add: handler_defs calls_since_def)

theorem reconciling_refetch_unfiltered_witness:
  "searchSerialNumber ((searching_dashboard twelve_vehicles)
      \<lparr>deletingVehicle := Some \<lparr>del_id = 7, del_serialNumber = ''S1''\<rparr>\<rparr>) = ''ABC123''
   \<and> debouncedSerialNumber ((searching_dashboard twelve_vehicles)
      \<lparr>deletingVehicle := Some \<lparr>del_id = 7, del_serialNumber = ''S1''\<rparr>\<rparr>) = ''ABC123''
   \<and> deletingVehicle ((searching_dashboard twelve_vehicles)
      \<lparr>deletingVehicle := Some \<lparr>del_id = 7, del_serialNumber = ''S1''\<rparr>\<rparr>)
       = Some \<lparr>del_id = 7, del_serialNumber = ''S1''\<rparr>
   \<and> truthy_flag (success ok_response)
   \<and> last (api_calls (handleDelete (Resolved ok_response) ((searching_dashboard twelve_vehicles)
      \<lparr>deletingVehicle := Some \<lparr>del_id = 7, del_serialNumber = ''S1''\<rparr>\<rparr>))) = GetVehicles None None
   \<and> last (api_calls (handleMarkAsSold (example_vehicle 1 None) (Resolved ok_response)
      ((searching_dashboard twelve_vehicles)
      \<lparr>deletingVehicle := Some \<lparr>del_id = 7, del_serialNumber = ''S1''\<rparr>\<rparr>))) = GetVehicles None None
   \<and> last (api_calls (editForm_onSubmit_settle (Resolved ok_response)
      ((searching_dashboard twelve_vehicles)
      \<lparr>deletingVehicle := Some \<lparr>del_id = 7, del_serialNumber = ''S1''\<rparr>\<rparr>))) = GetVehicles None None"
proof -
  let ?d = "\<lparr>del_id = 7, del_serialNumber = ''S1''\<rparr>"
  let ?st = "(searching_dashboard twelve_vehicles)\<lparr>deletingVehicle := Some ?d\<rparr>"
  have p: "searchSerialNumber ?st = ''ABC123''" "debouncedSerialNumber ?st = ''ABC123''"
    "deletingVehicle ?st = Some ?d" "truthy_flag (success ok_response)"
    by (simp_all add: searching_dashboard_def debouncedSerialNumber_def ok_response_def truthy_flag_def)
  from reconciling_refetch_unfiltered [of ?st ?d ok_response "example_vehicle 1 None"] p
  show ?thesis by blast
qed

section \<open>Search: properties\<close>

lemma fetches_for_refl:
  "searchMode st' = m \<Longrightarrow> api_calls st' = api_calls st \<Longrightarrow> fetches_for m st st'"
  by (simp add: fetches_for_def)

lemma fetches_for_trans:
  "fetches_for m st st1 \<Longrightarrow> fetches_for m st1 st2 \<Longrightarrow> fetches_for m st st2"
  by (auto simp: fetches_for_def)

lemma fetches_for_mode: "fetches_for m st st' \<Longrightarrow> searchMode st' = m"
  by (simp add: fetches_for_def)

lemma trim_or_undefined_nonempty: "trim_or_undefined x \<noteq> Some []"
  by (simp add: trim_or_undefined_def split: option.splits)

lemma autoSearch_fetches: "fetches_for (searchMode st) st (autoSearch_effect st)"
  by (cases "searchMode st")
     (simp_all add: fetches_for_def autoSearch_effect_def fetchVehicles_begin_def
        active_filter_only_def at_most_one_filter_def trim_or_undefined_nonempty,
      simp_all add: trim_or_undefined_def)

lemma hook_effects_keep:
  "searchMode (dealerHook_effect (serialHook_effect st)) = searchMode st"
  "api_calls (dealerHook_effect (serialHook_effect st)) = api_calls st"
  "searchSerialNumber (dealerHook_effect (serialHook_effect st)) = searchSerialNumber st"
  "searchDealerCode (dealerHook_effect (serialHook_effect st)) = searchDealerCode st"
  by (simp_all add: serialHook_effect_def dealerHook_effect_def)

lemma rerender_fetches: "fetches_for (searchMode st) st (rerender prev st)"
proof -
  let ?st1 = "dealerHook_effect (serialHook_effect st)"
  have a: "fetches_for (searchMode st) st ?st1"
    by (simp add: fetches_for_def hook_effects_keep)
  have "fetches_for (searchMode ?st1) ?st1 (autoSearch_effect ?st1)" by (rule autoSearch_fetches)
  then have b: "fetches_for (searchMode st) ?st1 (autoSearch_effect ?st1)"
    by (simp only: hook_effects_keep)
  have c: "fetches_for (searchMode st) ?st1 ?st1"
    by (simp add: fetches_for_def hook_effects_keep)
  have "fetches_for (searchMode st) ?st1 (rerender prev st)"
    unfolding rerender_def Let_def using b c by (simp only: if_split) simp
  with a show ?thesis by (rule fetches_for_trans)
qed

lemma rerender_queries:
  "searchSerialNumber (rerender prev st) = searchSerialNumber st"
  "searchDealerCode (rerender prev st) = searchDealerCode st"
  by (simp_all add: rerender_def Let_def autoSearch_effect_def fetchVehicles_begin_def
      hook_effects_keep)

lemma timers_fetch:
  "fetches_for (searchMode st) st (serialTimer_fires st)"
  "fetches_for (searchMode st) st (dealerTimer_fires st)"
proof -
  have "fetches_for (searchMode st) st (st\<lparr>serialHook := useDebounce_fire (serialHook st)\<rparr>)"
    by (simp add: fetches_for_def)
  moreover have "fetches_for (searchMode (st\<lparr>serialHook := useDebounce_fire (serialHook st)\<rparr>))
     (st\<lparr>serialHook := useDebounce_fire (serialHook st)\<rparr>) (serialTimer_fires st)"
    unfolding serialTimer_fires_def by (rule rerender_fetches)
  ultimately show "fetches_for (searchMode st) st (serialTimer_fires st)"
    using fetches_for_trans by fastforce
  have "fetches_for (searchMode st) st (st\<lparr>dealerHook := useDebounce_fire (dealerHook st)\<rparr>)"
    by (simp add: fetches_for_def)
  moreover have "fetches_for (searchMode (st\<lparr>dealerHook := useDebounce_fire (dealerHook st)\<rparr>))
     (st\<lparr>dealerHook := useDebounce_fire (dealerHook st)\<rparr>) (dealerTimer_fires st)"
    unfolding dealerTimer_fires_def by (rule rerender_fetches)
  ultimately show "fetches_for (searchMode st) st (dealerTimer_fires st)"
    using fetches_for_trans by fastforce
qed

lemma elapse_fetches: "fetches_for (searchMode st) st (elapse ms st)"
proof -
  let ?st1 = "st\<lparr>now := now st + ms\<rparr>"
  have a: "fetches_for (searchMode st) st ?st1" by (simp add: fetches_for_def)
  have s: "fetches_for (searchMode st) ?st1 (serialTimer_fires ?st1)"
    and d: "fetches_for (searchMode st) ?st1 (dealerTimer_fires ?st1)"
    using timers_fetch [of ?st1] by simp_all
  have sd: "fetches_for (searchMode st) ?st1 (dealerTimer_fires (serialTimer_fires ?st1))"
    using timers_fetch(2) [of "serialTimer_fires ?st1"] fetches_for_mode [OF s] s
    by (metis fetches_for_trans)
  have ds: "fetches_for (searchMode st) ?st1 (serialTimer_fires (dealerTimer_fires ?st1))"
    using timers_fetch(1) [of "dealerTimer_fires ?st1"] fetches_for_mode [OF d] d
    by (metis fetches_for_trans)
  have n: "fetches_for (searchMode st) ?st1 ?st1" by (simp add: fetches_for_def)
  have "fetches_for (searchMode st) ?st1 (elapse ms st)"
    unfolding elapse_def Let_def using s d sd ds n by (simp only: if_split) simp
  with a show ?thesis by (rule fetches_for_trans)
qed

lemma step_fetches: "fetches_for (searchMode (search_step e st)) st (search_step e st)"
proof -
  have g: "\<And>st'. fetches_for (searchMode st') st st' \<Longrightarrow>
      fetches_for (searchMode (rerender st st')) st (rerender st st')"
    using rerender_fetches fetches_for_mode fetches_for_trans by metis
  show ?thesis
  proof (cases e)
    case (SetMode m)
    then show ?thesis
      by (cases m)
        (auto simp: serialMode_onClick_def dealerMode_onClick_def fetches_for_refl intro!: g)
  next
    case (SetSerialQuery s)
    then show ?thesis by (auto simp: serial_onChange_def fetches_for_refl intro!: g)
  next
    case (SetDealerQuery s)
    then show ?thesis by (auto simp: dealer_onChange_def fetches_for_refl intro!: g)
  next
    case Clear
    then show ?thesis by (auto simp: handleClearSearch_def fetches_for_refl intro!: g)
  next
    case (Elapse ms)
    then show ?thesis
      using elapse_fetches [of st ms] fetches_for_mode [OF elapse_fetches [of st ms]] by simp
  qed
qed

lemma search_run_snoc: "search_run (ops @ [e]) st = search_step e (search_run ops st)"
  by (simp add: search_run_def)

lemma setMode_clears:
  "searchDealerCode (search_step (SetMode Mode_serial_number) st) = []"
  "searchSerialNumber (search_step (SetMode Mode_dealer_code) st) = []"
  "searchMode (search_step (SetMode m) st) = m"
  using fetches_for_mode [OF rerender_fetches]
  by (cases m; simp add: serialMode_onClick_def dealerMode_onClick_def rerender_queries)+

lemma step_calls_since:
  "\<forall>c \<in> set (calls_since st (search_step e st)).
      active_filter_only (searchMode (search_step e st)) c \<and> at_most_one_filter c"
  using step_fetches [of e st]
  by (auto simp: fetches_for_def calls_since_def list_all_iff)

lemma step_invariant:
  assumes "\<forall>c \<in> set (api_calls st). at_most_one_filter c"
  shows "\<forall>c \<in> set (api_calls (search_step e st)). at_most_one_filter c"
  using step_fetches [of e st] assms
  by (auto simp: fetches_for_def list_all_iff)

lemma run_invariant:
  assumes "\<forall>c \<in> set (api_calls st). at_most_one_filter c"
  shows "\<forall>c \<in> set (api_calls (search_run ops st)). at_most_one_filter c"
proof (induction ops rule: rev_induct)
  case Nil
  show ?case using assms by (simp add: search_run_def)
next
  case (snoc e ops)
  then show ?case unfolding search_run_snoc by (rule step_invariant)
qed

lemma mount_invariant: "\<forall>c \<in> set (api_calls dashboard_mount). at_most_one_filter c"
  using autoSearch_fetches [of "\<lparr>vehicles = [], isLoading = True, currentPage = 1,
        searchSerialNumber = [], searchDealerCode = [], searchMode = Mode_serial_number,
        serialHook = useDebounce_mount 0 [] DEBOUNCE_DELAY_MS,
        dealerHook = useDebounce_mount 0 [] DEBOUNCE_DELAY_MS,
        editingVehicle = None, deletingVehicle = None,
        now = 0, next_handle = 2, serial_handle = 0, dealer_handle = 1,
        toasts = [], api_calls = []\<rparr>"]
  by (auto simp: dashboard_mount_def fetches_for_def list_all_iff)

lemmas search_defs =
  search_run_def serial_onChange_def dealer_onChange_def elapse_def rerender_def
  useDebounce_render_def useDebounce_mount_def useDebounce_fire_def timer_due_def dealer_first_def
  effect_runs_def serialHook_effect_def dealerHook_effect_def
  serialTimer_fires_def dealerTimer_fires_def serialMode_onClick_def dealerMode_onClick_def
  autoSearch_effect_def fetchVehicles_begin_def DEBOUNCE_DELAY_MS_def
  debouncedSerialNumber_def debouncedDealerCode_def calls_since_def Let_def
  trim_or_undefined_def trim_def is_white_space_def dashboard_mount_def

lemma typing_scenario_fetch:
  "calls_since dashboard_mount (search_run typing_scenario dashboard_mount) =
     [GetVehicles (Some ''ABC123'') None]"
  by (simp add: typing_scenario_def search_defs)

text \<open>
  Claim C2. After any sequence of operations of the search coordinator (mode switches,
  edits of either query, clearing, time passing), from any state: a switch to a mode
  leaves the other mode's query empty; every fetch that an operation issues carries the
  filter of the mode then active only, the other filter being \<^verbatim>\<open>undefined\<close>; and from
  the first render on, every fetch has at most one filter, which is not the empty string.
\<close>

theorem search_filters_exclusive:
  "searchDealerCode (search_run (ops @ [SetMode Mode_serial_number]) st) = []
   \<and> searchSerialNumber (search_run (ops @ [SetMode Mode_dealer_code]) st) = []
   \<and> searchMode (search_run (ops @ [SetMode m]) st) = m
   \<and> (\<forall>c \<in> set (calls_since (search_run ops st) (search_run (ops @ [e]) st)).
         active_filter_only (searchMode (search_run (ops @ [e]) st)) c \<and> at_most_one_filter c)
   \<and> (\<forall>c \<in> set (api_calls (search_run ops dashboard_mount)). at_most_one_filter c)"
  unfolding search_run_snoc
  using setMode_clears(1,2) [of "search_run ops st"]
    setMode_clears(3) [of m "search_run ops st"] step_calls_since [of "search_run ops st" e]
    run_invariant [OF mount_invariant, of ops]
  by blast

theorem search_filters_exclusive_witness:
  "calls_since (search_run [SetSerialQuery ''ABC'', Elapse 200, SetSerialQuery ''ABC123''] dashboard_mount)
     (search_run ([SetSerialQuery ''ABC'', Elapse 200, SetSerialQuery ''ABC123''] @ [Elapse 500])
        dashboard_mount)
     = [GetVehicles (Some ''ABC123'') None]
   \<and> searchMode (search_run ([SetSerialQuery ''ABC'', Elapse 200, SetSerialQuery ''ABC123''] @ [Elapse 500])
        dashboard_mount) = Mode_serial_number
   \<and> active_filter_only Mode_serial_number (GetVehicles (Some ''ABC123'') None)
   \<and> at_most_one_filter (GetVehicles (Some ''ABC123'') None)
   \<and> api_calls (search_run [SetSerialQuery ''ABC'', Elapse 200, SetSerialQuery ''ABC123'']
        dashboard_mount) = [GetVehicles None None]
   \<and> at_most_one_filter (GetVehicles None None)
   \<and> searchSerialNumber (search_run
        ([SetSerialQuery ''ABC'', Elapse 200, SetSerialQuery ''ABC123''] @ [SetMode Mode_dealer_code])
        dashboard_mount) = []"
proof -
  let ?ops = "[SetSerialQuery ''ABC'', Elapse 200, SetSerialQuery ''ABC123'']"
  let ?c = "GetVehicles (Some ''ABC123'') None"
  note t = search_filters_exclusive [of ?ops dashboard_mount Mode_dealer_code "Elapse 500"]
  have cs: "calls_since (search_run ?ops dashboard_mount)
      (search_run (?ops @ [Elapse 500]) dashboard_mount) = [?c]"
    by (simp add: search_defs)
  have m: "searchMode (search_run (?ops @ [Elapse 500]) dashboard_mount) = Mode_serial_number"
    by (simp add: search_defs)
  have ac: "api_calls (search_run ?ops dashboard_mount) = [GetVehicles None None]"
    by (simp add: search_defs)
  from t have "\<forall>c \<in> set (calls_since (search_run ?ops dashboard_mount)
         (search_run (?ops @ [Elapse 500]) dashboard_mount)).
       active_filter_only (searchMode (search_run (?ops @ [Elapse 500]) dashboard_mount)) c
       \<and> at_most_one_filter c"
    by blast
  then have "\<forall>c \<in> set [?c]. active_filter_only Mode_serial_number c \<and> at_most_one_filter c"
    unfolding cs m .
  then have r1: "active_filter_only Mode_serial_number ?c" "at_most_one_filter ?c"
    by simp_all
  from t have "\<forall>c \<in> set (api_calls (search_run ?ops dashboard_mount)). at_most_one_filter c"
    by blast
  then have r2: "at_most_one_filter (GetVehicles None None)"
    unfolding ac by simp
  from t have r3: "searchSerialNumber (search_run (?ops @ [SetMode Mode_dealer_code])
      dashboard_mount) = []"
    by blast
  from cs m r1 ac r2 r3 show ?thesis by blast
qed

section \<open>The debounce hook: properties\<close>

lemma track_burst:
  assumes "hook_value h = v" and "timer h = Some (t + delay, v)" and "burst delay t v cs"
    and "hook_delay h = delay"
  shows "track delay cs h =
           h\<lparr>hook_value := snd (last_change t v cs),
             timer := Some (fst (last_change t v cs) + delay, snd (last_change t v cs))\<rparr>"
  using assms
proof (induction cs arbitrary: h t v)
  case Nil
  then show ?case by (simp add: last_change_def)
next
  case (Cons c cs)
  obtain t' v' where c: "c = (t', v')" by (cases c)
  from Cons.prems(3) have b: "t \<le> t'" "t' < t + delay" "v' \<noteq> v" "burst delay t' v' cs"
    by (simp_all add: c)
  let ?h' = "h\<lparr>hook_value := v', timer := Some (t' + delay, v')\<rparr>"
  have adv: "advance t' h = h"
    using Cons.prems(2) b(2) by (simp add: advance_def timer_due_def)
  have step: "useDebounce_render t' v' delay (advance t' h) = ?h'"
    using Cons.prems(1,4) b(3) by (simp add: adv useDebounce_render_def effect_runs_def)
  have "track delay cs ?h' =
      ?h'\<lparr>hook_value := snd (last_change t' v' cs),
          timer := Some (fst (last_change t' v' cs) + delay, snd (last_change t' v' cs))\<rparr>"
    by (rule Cons.IH) (simp_all add: b(4) Cons.prems(4))
  moreover have "last_change t v (c # cs) = last_change t' v' cs"
    by (simp add: last_change_def c)
  ultimately show ?case by (simp add: c step)
qed

lemma track_first:
  assumes "\<not> timer_due t h" and "v \<noteq> hook_value h" and "burst delay t v cs"
  shows "track delay ((t, v) # cs) h =
           h\<lparr>hook_value := snd (last_change t v cs), hook_delay := delay,
             timer := Some (fst (last_change t v cs) + delay, snd (last_change t v cs))\<rparr>"
proof -
  let ?h' = "h\<lparr>hook_value := v, hook_delay := delay, timer := Some (t + delay, v)\<rparr>"
  have "useDebounce_render t v delay (advance t h) = ?h'"
    using assms(1,2) by (simp add: advance_def useDebounce_render_def effect_runs_def)
  moreover have "track delay cs ?h' =
     ?h'\<lparr>hook_value := snd (last_change t v cs),
             timer := Some (fst (last_change t v cs) + delay, snd (last_change t v cs))\<rparr>"
    by (rule track_burst) (simp_all add: assms(3))
  ultimately show ?thesis by simp
qed

text \<open>
  Claim C4, as the code has it. The input changes to \<open>v\<close> at time \<open>t\<close>, when no callback
  is due, and then again in a burst \<open>cs\<close>, each change less than \<open>delay\<close> after the one
  before; \<open>(tn, vn)\<close> is the last change. Before \<open>tn + delay\<close> no callback has run. From
  \<open>tn + delay\<close> on exactly one has, at \<open>tn + delay\<close>, and it set the delayed value to
  \<open>vn\<close>: no value in between was ever set. The delayed value has changed once when \<open>vn\<close>
  is not the value it held before, and not at all when it is.
\<close>

theorem debounce_burst:
  assumes "\<not> timer_due t h" and "v \<noteq> hook_value h" and "burst delay t v cs"
    and "last_change t v cs = (tn, vn)"
  shows "(T < tn + delay \<longrightarrow> fired (advance T (track delay ((t, v) # cs) h)) = fired h)
    \<and> (tn + delay \<le> T \<longrightarrow>
         fired (advance T (track delay ((t, v) # cs) h)) =
           fired h @ [(tn + delay, debouncedValue h, vn)]
         \<and> debouncedValue (advance T (track delay ((t, v) # cs) h)) = vn
         \<and> timer (advance T (track delay ((t, v) # cs) h)) = None
         \<and> changes (advance T (track delay ((t, v) # cs) h)) =
             changes h @ (if vn = debouncedValue h then [] else [(tn + delay, vn)]))"
  using track_first [OF assms(1,2,3)] assms(4)
  by (simp add: advance_def timer_due_def useDebounce_fire_def changes_def)

theorem debounce_burst_witness:
  "\<not> timer_due 100 (useDebounce_mount 0 ([]::string) 500)
   \<and> ''ABC'' \<noteq> hook_value (useDebounce_mount 0 ([]::string) 500)
   \<and> burst 500 100 ''ABC'' [(300, ''ABC123'')]
   \<and> last_change 100 ''ABC'' [(300, ''ABC123'')] = (300, ''ABC123'')
   \<and> fired (advance 799 (track 500 [(100, ''ABC''), (300, ''ABC123'')]
        (useDebounce_mount 0 ([]::string) 500))) = []
   \<and> changes (advance 800 (track 500 [(100, ''ABC''), (300, ''ABC123'')]
        (useDebounce_mount 0 ([]::string) 500))) = [(800, ''ABC123'')]"
proof -
  let ?h = "useDebounce_mount 0 ([]::string) 500"
  have a: "\<not> timer_due 100 ?h" "''ABC'' \<noteq> hook_value ?h"
    "burst 500 100 ''ABC'' [(300, ''ABC123'')]"
    "last_change 100 ''ABC'' [(300, ''ABC123'')] = (300, ''ABC123'')"
    by (simp_all add: useDebounce_mount_def timer_due_def last_change_def)
  have h: "fired ?h = []" "changes ?h = []" "debouncedValue ?h = []"
    by (simp_all add: useDebounce_mount_def changes_def)
  have r1: "fired (advance 799 (track 500 [(100, ''ABC''), (300, ''ABC123'')] ?h)) = []"
    using debounce_burst [OF a, of 799] h by simp
  have r2: "changes (advance 800 (track 500 [(100, ''ABC''), (300, ''ABC123'')] ?h)) =
       [(800, ''ABC123'')]"
    using debounce_burst [OF a, of 800] h by simp
  from a r1 r2 show ?thesis by blast
qed

text \<open>
  The claim as the specification words it fails when the burst ends on the value the
  delayed value already holds: the user types \<^verbatim>\<open>a\<close> at 100 ms and deletes it at 300 ms.
  The one callback runs at 800 ms and sets the empty string again, so the delayed value
  never changes.
\<close>

theorem debounce_counterexample:
  "\<not> timer_due 100 (useDebounce_mount 0 ([]::string) 500)
   \<and> ''a'' \<noteq> hook_value (useDebounce_mount 0 ([]::string) 500)
   \<and> burst 500 100 ''a'' [(300, ([]::string))]
   \<and> changes (advance 1000 (track 500 [(100, ''a''), (300, ([]::string))]
        (useDebounce_mount 0 ([]::string) 500))) = []
   \<and> fired (advance 1000 (track 500 [(100, ''a''), (300, ([]::string))]
        (useDebounce_mount 0 ([]::string) 500))) = [(800, [], [])]
   \<and> debouncedValue (advance 1000 (track 500 [(100, ''a''), (300, ([]::string))]
        (useDebounce_mount 0 ([]::string) 500))) = debouncedValue (useDebounce_mount 0 ([]::string) 500)"
  by (simp add: useDebounce_mount_def timer_due_def advance_def useDebounce_render_def
      effect_runs_def useDebounce_fire_def changes_def)

end
